theory Spec2Isabelle
  imports Complex_Main
begin

section \<open>Arrays and their arithmetic\<close>

text \<open>
  The notebook works on two-dimensional numpy arrays of floats. An array is modelled as
  the list of its rows (an array without rows has no columns here), a float as a real
  number, an age as a real number (the notebook passes Python ints and adds loop
  counters to them). Rounding and the special values of IEEE arithmetic are outside the
  model; the one float operation of the notebook that raises, \<open>c**x\<close> out of the
  range of a double, is modelled with its exception.

  On \<open>ndarray\<close> operands the Python operators \<open>*\<close> and \<open>+\<close> work entry by entry,
  and a scalar times an array scales every entry. Operands of different shapes are
  broadcast: an axis of length one is repeated along the other operand's axis, and
  ValueError is raised when an axis differs and neither length is one.
\<close>

type_synonym matrix = "real list list"

datatype error = IndexError | ValueError | OverflowError

definition eye :: "nat \<Rightarrow> matrix" where
  "eye d = map (\<lambda>i. map (\<lambda>j. if i = j then 1 else 0) [0..<d]) [0..<d]"

definition smult :: "real \<Rightarrow> matrix \<Rightarrow> matrix" where
  "smult c M = map (map ((*) c)) M"

definition ncols :: "matrix \<Rightarrow> nat" where
  "ncols N = (case N of [] \<Rightarrow> 0 | r # _ \<Rightarrow> length r)"

definition broadcastable :: "matrix \<Rightarrow> matrix \<Rightarrow> bool" where
  "broadcastable M N =
     ((length M = length N \<or> length M = 1 \<or> length N = 1)
      \<and> (ncols M = ncols N \<or> ncols M = 1 \<or> ncols N = 1))"

definition stretch :: "nat \<Rightarrow> nat \<Rightarrow> nat" where
  "stretch m n = (if m = 1 then n else m)"

definition entry :: "matrix \<Rightarrow> nat \<Rightarrow> nat \<Rightarrow> real" where
  "entry M i j =
     (let row = (if length M = 1 then M ! 0 else M ! i)
      in if length row = 1 then row ! 0 else row ! j)"

definition elementwise :: "(real \<Rightarrow> real \<Rightarrow> real) \<Rightarrow> matrix \<Rightarrow> matrix \<Rightarrow> error + matrix" where
  "elementwise f M N =
     (if map length M = map length N then Inr (map2 (map2 f) M N)
      else if broadcastable M N then
        Inr (map (\<lambda>i. map (\<lambda>j. f (entry M i j) (entry N i j))
                   [0..<stretch (ncols M) (ncols N)])
               [0..<stretch (length M) (length N)])
      else Inl ValueError)"

definition array_mul :: "matrix \<Rightarrow> matrix \<Rightarrow> error + matrix" where
  "array_mul M N = elementwise (*) M N"

definition array_add :: "matrix \<Rightarrow> matrix \<Rightarrow> error + matrix" where
  "array_add M N = elementwise (+) M N"

definition index :: "real list \<Rightarrow> int \<Rightarrow> error + real" where
  "index v k =
     (let n = int (length v); j = (if k < 0 then n + k else k)
      in if 0 \<le> j \<and> j < n then Inr (v ! nat j) else Inl IndexError)"

section \<open>The annuity valuation\<close>

text \<open>
  The discount argument \<open>v\<close> of \<open>annuities\<close> is either an \<open>ndarray\<close> of weights
  (the branch \<open>isinstance(v, np.ndarray)\<close>) or anything else, which the code raises to
  the power \<open>k\<close>: a scalar discount factor.
\<close>

datatype cashflow = Scalar real | Sequence "real list"

text \<open>
  What a call does: the ages at which it evaluated the transition function \<open>P\<close>, in
  order, and how it ended, with the returned array or with the exception raised.
\<close>

record run =
  evaluated :: "real list"
  outcome :: "error + matrix"

text \<open>
  The body of \<open>for k in range(1, n + 1)\<close>, over the remaining values of \<open>k\<close>:
  \<open>Pk = P(x + k) * Pk\<close>, then \<open>a = a + w * Pk\<close> with \<open>w\<close> the weight of duration
  \<open>k\<close> (\<open>v[k]\<close> or \<open>v**k\<close>). The first exception ends the call.
\<close>

fun loop :: "(real \<Rightarrow> matrix) \<Rightarrow> real \<Rightarrow> (int \<Rightarrow> error + real) \<Rightarrow> int list
    \<Rightarrow> matrix \<Rightarrow> matrix \<Rightarrow> real list \<Rightarrow> run" where
  "loop P x weight [] Pk a ev = \<lparr>evaluated = ev, outcome = Inr a\<rparr>"
| "loop P x weight (k # ks) Pk a ev =
     (let ev' = ev @ [x + of_int k] in
      case array_mul (P (x + of_int k)) Pk of
        Inl e \<Rightarrow> \<lparr>evaluated = ev', outcome = Inl e\<rparr>
      | Inr Pk' \<Rightarrow>
          (case weight k of
             Inl e \<Rightarrow> \<lparr>evaluated = ev', outcome = Inl e\<rparr>
           | Inr w \<Rightarrow>
               (case array_add a (smult w Pk') of
                  Inl e \<Rightarrow> \<lparr>evaluated = ev', outcome = Inl e\<rparr>
                | Inr a' \<Rightarrow> loop P x weight ks Pk' a' ev')))"

definition annuities :: "real \<Rightarrow> cashflow \<Rightarrow> (real \<Rightarrow> matrix) \<Rightarrow> int \<Rightarrow> run" where
  "annuities x v P n =
     (let Pk = P x; d = length Pk; a = eye d in
      case v of
        Sequence s \<Rightarrow>
          (case index s 0 of
             Inl e \<Rightarrow> \<lparr>evaluated = [x], outcome = Inl e\<rparr>
           | Inr v0 \<Rightarrow>
               (let a = smult v0 a in
                if length s > 1 then loop P x (index s) [1..n] Pk a [x]
                else \<lparr>evaluated = [x], outcome = Inr a\<rparr>))
      | Scalar r \<Rightarrow> loop P x (\<lambda>k. Inr (r ^ nat k)) [1..n] Pk a [x])"

section \<open>The generator and the transition matrix\<close>

text \<open>
  Python's \<open>c**x\<close> on floats: the real power, and OverflowError when the result is
  out of the range of a double. Under rounding to nearest that is from
  \<open>2^1024 - 2^970\<close> on, half a unit in the last place above the largest double.
\<close>

definition float_pow :: "real \<Rightarrow> real \<Rightarrow> error + real" where
  "float_pow c x =
     (if 2 ^ 1024 - 2 ^ 970 \<le> c powr x then Inl OverflowError else Inr (c powr x))"

text \<open>
  \<open>U(x)\<close>, the matrix of forces of transition at age \<open>x\<close>. The sums and products
  are exact here; the doubles of the source round them, by about \<open>1e-16\<close> on the
  ages \<open>0..120\<close> and by more than \<open>1e-10\<close> from age \<open>323\<close> on, where
  \<open>u03\<close> is large.
\<close>

definition U :: "real \<Rightarrow> error + matrix" where
  "U x =
     (let A = 0.001; B = 0.0004; c = 1.07;
          u01 = 0.001 * x;
          u02 = 0.01
      in case float_pow c x of
           Inl e \<Rightarrow> Inl e
         | Inr cx \<Rightarrow>
             (let u03 = A + B * cx;
                  u00 = - (u01 + u02 + u03)
              in Inr [[u00, u01, u02, u03], [0, - u03, 0, u03], [0, 0, - u03, u03],
                      [0, 0, 0, 0]]))"

text \<open>
  Modelled from the spec: the matrix product, which the notebook never calls itself (it
  is inside scipy's \<open>linalg.expm\<close>). The specification's valuation algorithm and
  its matrix exponential are stated with it: row \<open>i\<close>, column \<open>j\<close> of the product
  is the sum over \<open>k\<close> of \<open>M[i][k] * N[k][j]\<close>.
\<close>

definition matmul :: "matrix \<Rightarrow> matrix \<Rightarrow> matrix" where
  "matmul M N =
     map (\<lambda>r. map (\<lambda>j. sum_list (map2 (*) r (map (\<lambda>row. row ! j) N))) [0..<ncols N]) M"

fun mat_pow :: "matrix \<Rightarrow> nat \<Rightarrow> matrix" where
  "mat_pow M 0 = eye (length M)"
| "mat_pow M (Suc k) = matmul M (mat_pow M k)"

text \<open>
  Modelled from the spec: \<open>linalg.expm\<close> is scipy's routine and not part of the
  repository. The specification's glossary defines the matrix exponential as the operator
  \<open>exp(U) = \<Sum> U^k / k!\<close>; this is that series, entry by entry, in exact real
  arithmetic. The rounding of scipy's floating-point algorithm is not modelled.
\<close>

definition expm :: "matrix \<Rightarrow> matrix" where
  "expm M =
     map (\<lambda>i. map (\<lambda>j. \<Sum>k. mat_pow M k ! i ! j / fact k) [0..<length M]) [0..<length M]"

text \<open>
  \<open>P(x) = linalg.expm(U(x))\<close>, the transition matrix at age \<open>x\<close>; an exception
  of \<open>U\<close> passes through.
\<close>

definition P :: "real \<Rightarrow> error + matrix" where
  "P x = (case U x of Inl e \<Rightarrow> Inl e | Inr M \<Rightarrow> Inr (expm M))"

section \<open>The specification's direct summation\<close>

text \<open>
  The specification's words for the valuation, to compare the code with: the running
  product starts as \<open>transitionMatrixFn(startAge)\<close> and is updated at duration \<open>k\<close>
  to \<open>transitionMatrixFn(startAge + k) \<times> Pk\<close>, a matrix product with the new matrix
  on the left; the value is \<open>weight(0) \<cdot> Identity(d)\<close> plus the sum over
  \<open>k = 1..n\<close> of \<open>weight(k)\<close> times that product.
\<close>

fun spec_path_product :: "(real \<Rightarrow> matrix) \<Rightarrow> real \<Rightarrow> nat \<Rightarrow> matrix" where
  "spec_path_product T x 0 = T x"
| "spec_path_product T x (Suc k) = matmul (T (x + real (Suc k))) (spec_path_product T x k)"

fun spec_direct_summation :: "(real \<Rightarrow> matrix) \<Rightarrow> real \<Rightarrow> (nat \<Rightarrow> real) \<Rightarrow> nat \<Rightarrow> matrix" where
  "spec_direct_summation T x weight 0 = smult (weight 0) (eye (length (T x)))"
| "spec_direct_summation T x weight (Suc k) =
     map2 (map2 (+)) (spec_direct_summation T x weight k)
       (smult (weight (Suc k)) (spec_path_product T x (Suc k)))"

section \<open>Zero and negative horizons\<close>

lemma smult_one: "smult 1 M = M"
  by (simp add: smult_def map_idI)

text \<open>
  C5. With horizon \<open>n = 0\<close> the valuation returns \<open>weight(0)\<close> times the identity of
  dimension \<open>d\<close>, the number of rows of \<open>P(x)\<close>: the weight is \<open>1\<close> for a scalar
  discount factor and the first entry of an explicit weight sequence.
\<close>

theorem annuities_zero_horizon:
  "outcome (annuities x (Scalar r) T 0) = Inr (smult 1 (eye (length (T x))))
   \<and> outcome (annuities x (Sequence (w # ws)) T 0) = Inr (smult w (eye (length (T x))))"
  by (simp add: annuities_def index_def smult_one Let_def)

text \<open>
  C9. An explicit weight sequence of size exactly one skips the loop whatever the
  horizon: the call evaluates \<open>P\<close> at the starting age only and returns the single
  weight times the identity.
\<close>

theorem annuities_singleton_sequence:
  "annuities x (Sequence [s]) T n =
     \<lparr>evaluated = [x], outcome = Inr (smult s (eye (length (T x))))\<rparr>"
  by (simp add: annuities_def index_def Let_def)

text \<open>
  C10, as stated, fails: not every discount specification returns normally. An empty
  weight sequence, which is the sequence of length \<open>n + 1\<close> at horizon \<open>-1\<close>, raises
  IndexError at \<open>v[0]\<close>.
\<close>

theorem annuities_empty_sequence_counterexample:
  "annuities 25 (Sequence []) (\<lambda>y. [[1/2, 1/2], [0, 1]]) (-1)
     = \<lparr>evaluated = [25], outcome = Inl IndexError\<rparr>"
  by (simp add: annuities_def index_def Let_def)

text \<open>
  C10, amended. For every horizon \<open>n \<le> 0\<close>, negative ones included,
  \<open>range(1, n + 1)\<close> is empty. With a scalar discount factor or a weight sequence
  that has a first entry the call returns normally: it evaluates \<open>P\<close> at the starting
  age only, runs no iteration, and returns \<open>weight(0)\<close> times the identity. With an
  empty weight sequence it raises IndexError at \<open>v[0]\<close>.
\<close>

theorem annuities_nonpositive_horizon:
  "n \<le> 0 \<Longrightarrow>
     annuities x (Scalar r) T n
       = \<lparr>evaluated = [x], outcome = Inr (smult 1 (eye (length (T x))))\<rparr>
     \<and> annuities x (Sequence (w # ws)) T n
       = \<lparr>evaluated = [x], outcome = Inr (smult w (eye (length (T x))))\<rparr>
     \<and> annuities x (Sequence []) T n
       = \<lparr>evaluated = [x], outcome = Inl IndexError\<rparr>"
  by (simp add: annuities_def index_def smult_one Let_def)

theorem annuities_nonpositive_horizon_witness:
  "(0::int) \<le> 0
   \<and> annuities 25 (Scalar (25/26)) (\<lambda>y. [[1/2, 1/2], [0, 1]]) 0
       = \<lparr>evaluated = [25],
          outcome = Inr (smult 1 (eye (length [[1/2, 1/2], [0, 1::real]])))\<rparr>
   \<and> annuities 25 (Sequence [3, 2]) (\<lambda>y. [[1/2, 1/2], [0, 1]]) 0
       = \<lparr>evaluated = [25],
          outcome = Inr (smult 3 (eye (length [[1/2, 1/2], [0, 1::real]])))\<rparr>
   \<and> annuities 25 (Sequence []) (\<lambda>y. [[1/2, 1/2], [0, 1]]) 0
       = \<lparr>evaluated = [25], outcome = Inl IndexError\<rparr>"
  using annuities_nonpositive_horizon
    [of 0 25 "25/26" "\<lambda>y. [[1/2, 1/2], [0, 1]]" 3 "[2]"]
  by simp

text \<open>
  C3, as the specification states it, fails: the code has no check of the horizon. At
  horizon \<open>-1\<close> a call returns an array.
\<close>

theorem annuities_negative_horizon_counterexample:
  "outcome (annuities 25 (Scalar (25/26)) (\<lambda>y. [[1/2, 1/2], [0, 1]]) (-1))
     = Inr [[1, 0], [0, 1]]"
  by (simp add: annuities_def eye_def Let_def upt_rec)

text \<open>
  C3, amended. For every horizon \<open>n < 0\<close> the call signals no error: it evaluates
  \<open>P\<close> once, at the starting age, runs no iteration of the loop, and returns
  \<open>weight(0)\<close> times the identity.
\<close>

theorem annuities_negative_horizon:
  "n < 0 \<Longrightarrow>
     annuities x (Scalar r) T n
       = \<lparr>evaluated = [x], outcome = Inr (eye (length (T x)))\<rparr>
     \<and> annuities x (Sequence (w # ws)) T n
       = \<lparr>evaluated = [x], outcome = Inr (smult w (eye (length (T x))))\<rparr>"
  by (simp add: annuities_def index_def Let_def)

theorem annuities_negative_horizon_witness:
  "(-1::int) < 0
   \<and> annuities 25 (Scalar (25/26)) (\<lambda>y. [[1/2, 1/2], [0, 1]]) (-1)
       = \<lparr>evaluated = [25], outcome = Inr (eye (length [[1/2, 1/2], [0, 1::real]]))\<rparr>
   \<and> annuities 25 (Sequence [3, 2]) (\<lambda>y. [[1/2, 1/2], [0, 1]]) (-1)
       = \<lparr>evaluated = [25], outcome = Inr (smult 3 (eye (length [[1/2, 1/2], [0, 1::real]])))\<rparr>"
  using annuities_negative_horizon
    [of "-1" 25 "25/26" "\<lambda>y. [[1/2, 1/2], [0, 1]]" 3 "[2]"]
  by simp

section \<open>Scalar discount factor and explicit weights\<close>

lemma loop_weight_cong:
  "(\<And>k. k \<in> set ks \<Longrightarrow> w1 k = w2 k) \<Longrightarrow>
     loop T x w1 ks Pk a ev = loop T x w2 ks Pk a ev"
  by (induction ks arbitrary: Pk a ev) (simp_all add: Let_def split: sum.splits)

lemma index_powers:
  "0 \<le> k \<Longrightarrow> k \<le> n \<Longrightarrow>
     index (map (\<lambda>k. r ^ k) [0..<nat n + 1]) k = Inr (r ^ nat k)"
proof -
  assume k: "0 \<le> k" "k \<le> n"
  then have "nat k < nat n + 1" by linarith
  then have "map (\<lambda>k. r ^ k) [0..<nat n + 1] ! nat k = r ^ nat k"
    by (simp only: nth_map length_upt nth_upt diff_zero add_0)
  with k show ?thesis
    by (simp add: index_def Let_def)
qed

text \<open>
  C6. For every horizon \<open>n \<ge> 0\<close> and every scalar discount factor \<open>r\<close>, the call
  with the explicit weights \<open>r^0, ..., r^n\<close> does what the call with the scalar \<open>r\<close>
  does: the same evaluations of \<open>P\<close> and the same returned array (or the same
  exception). The two arrays are equal, so they agree within every tolerance; the
  discount factors in \<open>(0, 1]\<close> are a special case.
\<close>

theorem annuities_sequence_of_powers:
  assumes "0 \<le> n"
  shows "annuities x (Sequence (map (\<lambda>k. r ^ k) [0..<nat n + 1])) T n
           = annuities x (Scalar r) T n"
proof (cases "n = 0")
  case True
  then show ?thesis
    by (simp add: annuities_def index_def Let_def smult_one)
next
  case False
  with assms have n: "1 \<le> n" by simp
  let ?s = "map (\<lambda>k. r ^ k) [0..<nat n + 1]"
  have len: "1 < length ?s" using n by simp
  have i0: "index ?s 0 = Inr 1"
    using index_powers [of 0 n r] assms by simp
  have "loop T x (index ?s) [1..n] (T x) (eye (length (T x))) [x]
          = loop T x (\<lambda>k. Inr (r ^ nat k)) [1..n] (T x) (eye (length (T x))) [x]"
  proof (rule loop_weight_cong)
    fix k assume "k \<in> set [1..n]"
    then have "0 \<le> k" "k \<le> n" by simp_all
    then show "index ?s k = Inr (r ^ nat k)" by (rule index_powers)
  qed
  with len i0 show ?thesis
    by (simp add: annuities_def Let_def smult_one del: upt_Suc)
qed

theorem annuities_sequence_of_powers_witness:
  "(0::int) \<le> 2
   \<and> annuities 25 (Sequence (map (\<lambda>k. (25/26) ^ k) [0..<nat 2 + 1])) (\<lambda>y. [[1/2, 1/2], [0, 1]]) 2
       = annuities 25 (Scalar (25/26)) (\<lambda>y. [[1/2, 1/2], [0, 1]]) 2"
  using annuities_sequence_of_powers [of 2 25 "25/26" "\<lambda>y. [[1/2, 1/2], [0, 1]]"]
  by simp

section \<open>Weight sequences shorter than the horizon\<close>

lemma shape_map2:
  "map length M = map length N \<Longrightarrow> map length (map2 (map2 f) M N) = map length M"
proof -
  assume sh: "map length M = map length N"
  then have "length M = length N" by (rule map_eq_imp_length_eq)
  then show ?thesis using sh
    by (induction M N rule: list_induct2) simp_all
qed

lemma shape_smult: "map length (smult c M) = map length M"
  by (simp add: smult_def)

lemma shape_eye: "map length (eye d) = replicate d d"
  by (simp add: eye_def map_replicate_const comp_def)

lemma index_in_range:
  "0 \<le> k \<Longrightarrow> k < int (length s) \<Longrightarrow> index s k = Inr (s ! nat k)"
  by (simp add: index_def Let_def)

lemma index_out_of_range:
  "int (length s) \<le> k \<Longrightarrow> index s k = Inl IndexError"
  by (simp add: index_def Let_def)

lemma loop_short_sequence:
  assumes T: "\<forall>y. map length (T y) = sh"
    and "map length Pk = sh" and "map length a = sh"
    and "1 \<le> i" and "i \<le> int (length s)" and "int (length s) \<le> n"
  shows "loop T x (index s) [i..n] Pk a ev
           = \<lparr>evaluated = ev @ map (\<lambda>k. x + of_int k) [i..int (length s)],
              outcome = Inl IndexError\<rparr>"
  using assms(2-)
proof (induction "nat (int (length s) - i)" arbitrary: i Pk a ev)
  case 0
  then have i: "i = int (length s)" by simp
  from 0 have up: "[i..n] = i # [i + 1..n]" by (simp add: upto_rec1)
  from T 0 have mul: "array_mul (T (x + of_int i)) Pk
      = Inr (map2 (map2 (*)) (T (x + of_int i)) Pk)"
    by (simp add: array_mul_def elementwise_def)
  have idx: "index s i = Inl IndexError"
    using i by (simp add: index_out_of_range)
  have single: "[i..int (length s)] = [i]"
    unfolding i by simp
  show ?case
    unfolding up single by (simp add: mul idx Let_def)
next
  case (Suc m)
  then have lt: "i < int (length s)" by linarith
  with Suc have up: "[i..n] = i # [i + 1..n]" by (simp add: upto_rec1)
  from lt have up': "[i..int (length s)] = i # [i + 1..int (length s)]"
    by (simp add: upto_rec1)
  let ?Pk = "map2 (map2 (*)) (T (x + of_int i)) Pk"
  let ?a = "map2 (map2 (+)) a (smult (s ! nat i) ?Pk)"
  from T Suc have shT: "map length (T (x + of_int i)) = map length Pk" by simp
  then have mul: "array_mul (T (x + of_int i)) Pk = Inr ?Pk"
    by (simp add: array_mul_def elementwise_def)
  have shPk: "map length ?Pk = sh"
    using shape_map2 [OF shT] T by simp
  have idx: "index s i = Inr (s ! nat i)"
    using Suc lt by (simp add: index_in_range)
  have sha: "map length a = map length (smult (s ! nat i) ?Pk)"
    using shPk Suc by (simp add: shape_smult)
  then have add: "array_add a (smult (s ! nat i) ?Pk) = Inr ?a"
    by (simp add: array_add_def elementwise_def)
  have sha': "map length ?a = sh"
    using shape_map2 [OF sha] Suc by simp
  have "loop T x (index s) [i + 1..n] ?Pk ?a (ev @ [x + of_int i])
          = \<lparr>evaluated = (ev @ [x + of_int i]) @ map (\<lambda>k. x + of_int k) [i + 1..int (length s)],
             outcome = Inl IndexError\<rparr>"
    using Suc lt by (intro Suc.hyps(1) shPk sha') simp_all
  then show ?case
    unfolding up up' by (simp add: mul idx add Let_def)
qed

text \<open>
  C4, as the specification states it, fails: the code never compares the length of the
  weight sequence with the horizon. With a one-element sequence and horizon \<open>1\<close> the call
  returns an array and signals nothing.
\<close>

theorem annuities_short_sequence_counterexample:
  "outcome (annuities 25 (Sequence [3]) (\<lambda>y. [[1/2, 1/2], [0, 1]]) 1)
     = Inr [[3, 0], [0, 3]]"
  by (simp add: annuities_def index_def smult_def eye_def Let_def upt_rec)

text \<open>
  C4, amended. With a weight sequence \<open>s\<close> shorter than \<open>n + 1\<close> and a transition
  function that returns \<open>d\<close> by \<open>d\<close> arrays, the code signals no length mismatch of
  its own. An empty sequence raises IndexError at \<open>v[0]\<close>, after the evaluation of
  \<open>P(x)\<close>. A sequence of one element returns that element times the identity. A longer
  one accumulates the durations \<open>1, ..., length s - 1\<close> and then raises the generic
  IndexError at \<open>v[k]\<close> for \<open>k = length s\<close>, having evaluated \<open>P\<close> at the ages
  \<open>x, ..., x + length s\<close>.
\<close>

theorem annuities_short_sequence:
  assumes "int (length s) < n + 1" and "\<forall>y. map length (T y) = replicate d d"
  shows "annuities x (Sequence s) T n =
           (if length s = 0 then \<lparr>evaluated = [x], outcome = Inl IndexError\<rparr>
            else if length s = 1 then \<lparr>evaluated = [x], outcome = Inr (smult (s ! 0) (eye d))\<rparr>
            else \<lparr>evaluated = map (\<lambda>k. x + of_int k) [0..int (length s)],
                  outcome = Inl IndexError\<rparr>)"
proof -
  from assms(2) have "length (map length (T x)) = length (replicate d d)" by simp
  then have d: "length (T x) = d" by simp
  consider "length s = 0" | "length s = 1" | "1 < length s" by linarith
  then show ?thesis
  proof cases
    case 1
    then show ?thesis by (simp add: annuities_def index_def Let_def)
  next
    case 2
    then show ?thesis by (simp add: annuities_def index_def Let_def d)
  next
    case 3
    then have i0: "index s 0 = Inr (s ! 0)"
      by (cases s) (simp_all add: index_def Let_def)
    have "loop T x (index s) [1..n] (T x) (smult (s ! 0) (eye d)) [x]
            = \<lparr>evaluated = [x] @ map (\<lambda>k. x + of_int k) [1..int (length s)],
               outcome = Inl IndexError\<rparr>"
      using assms 3 by (intro loop_short_sequence [where sh = "replicate d d"])
        (simp_all add: shape_smult shape_eye)
    moreover have "[0..int (length s)] = 0 # [1..int (length s)]"
      by (simp add: upto_rec1)
    ultimately show ?thesis
      using 3 i0 by (simp add: annuities_def Let_def d)
  qed
qed

theorem annuities_short_sequence_witness:
  "int (length [3, 2::real]) < 2 + 1
   \<and> (\<forall>y::real. map length [[1/2, 1/2], [0, 1::real]] = replicate 2 2)
   \<and> annuities 25 (Sequence [3, 2]) (\<lambda>y. [[1/2, 1/2], [0, 1]]) 2
       = \<lparr>evaluated = [25, 26, 27], outcome = Inl IndexError\<rparr>"
  using annuities_short_sequence [of "[3, 2]" 2 "\<lambda>y. [[1/2, 1/2], [0, 1]]" 2 25]
  by (simp add: numeral_2_eq_2 upto_rec1)

section \<open>The running product\<close>

text \<open>
  C1. The specification asks for the matrix product \<open>P(x + k) \<times> Pk\<close>. The code
  writes \<open>P( x + k ) * Pk\<close> on two \<open>ndarray\<close>s, which multiplies entry by entry.
  With the constant transition matrix \<open>[[1/2, 1/2], [0, 1]]\<close>, discount factor
  \<open>1/1.04 = 25/26\<close> and horizon \<open>1\<close>, the code returns \<open>25/104\<close> in row 0,
  column 1, where the direct summation with matrix products gives \<open>75/104\<close>.
\<close>

theorem annuities_multiplies_entrywise:
  "outcome (annuities 25 (Scalar (25/26)) (\<lambda>y. [[1/2, 1/2], [0, 1]]) 1)
     = Inr [[129/104, 25/104], [0, 51/26]]
   \<and> spec_direct_summation (\<lambda>y. [[1/2, 1/2], [0, 1]]) 25 (\<lambda>k. (25/26) ^ k) 1
     = [[129/104, 75/104], [0, 51/26]]"
  by (simp add: annuities_def array_mul_def array_add_def elementwise_def smult_def
      eye_def matmul_def ncols_def Let_def upt_rec upto_rec1)

section \<open>The range of the power\<close>

lemma power_step:
  fixes c d d' :: real
  assumes prev: "d * 2 ^ m \<le> c ^ k"
    and "0 \<le> d" and "0 \<le> c"
    and step: "d' * 2 ^ j \<le> d * d * c ^ b"
    and k': "k' = 2 * k + b" and m': "m' = j + 2 * m"
  shows "d' * 2 ^ m' \<le> c ^ k'"
proof -
  have "d' * 2 ^ m' = (d' * 2 ^ j) * (2 ^ m) ^ 2"
    unfolding m' by (simp add: power_add power_mult mult.commute)
  also have "\<dots> \<le> (d * d * c ^ b) * (2 ^ m) ^ 2"
    using step by (intro mult_right_mono) simp_all
  also have "\<dots> = (d * 2 ^ m) ^ 2 * c ^ b"
    by (simp add: power2_eq_square algebra_simps)
  also have "\<dots> \<le> (c ^ k) ^ 2 * c ^ b"
    using prev assms(2,3) by (intro mult_right_mono power_mono) simp_all
  also have "\<dots> = c ^ k'"
    unfolding k' by (simp add: power_add power_mult mult.commute)
  finally show ?thesis .
qed

text \<open>
  \<open>1.07^10491\<close> is beyond the doubles: a lower bound by repeated squaring along the
  binary digits of \<open>10491\<close>, each square rounded down to twelve decimals.
\<close>

lemma power_out_of_range: "(2::real) ^ 1024 \<le> 1.07 ^ 10491"
proof -
  have last: "1.024462663765 * 2 ^ 1024 \<le> (1.07::real) ^ 10491"
  proof -
    have s1: "1.07 * 2 ^ 0 \<le> (1.07::real) ^ 1" by simp
    have s2: "1.144900000000 * 2 ^ 0 \<le> (1.07::real) ^ 2"
      by (rule power_step [where j = 0 and b = 0, OF s1]) simp_all
    have s5: "1.402551730700 * 2 ^ 0 \<le> (1.07::real) ^ 5"
      by (rule power_step [where j = 0 and b = 1, OF s2]) simp_all
    have s10: "1.967151357289 * 2 ^ 0 \<le> (1.07::real) ^ 10"
      by (rule power_step [where j = 0 and b = 0, OF s5]) simp_all
    have s20: "1.934842231241 * 2 ^ 1 \<le> (1.07::real) ^ 20"
      by (rule power_step [where j = 1 and b = 0, OF s10]) simp_all
    have s40: "1.871807229896 * 2 ^ 3 \<le> (1.07::real) ^ 40"
      by (rule power_step [where j = 1 and b = 0, OF s20]) simp_all
    have s81: "1.874459333651 * 2 ^ 7 \<le> (1.07::real) ^ 81"
      by (rule power_step [where j = 1 and b = 1, OF s40]) simp_all
    have s163: "1.879774819528 * 2 ^ 15 \<le> (1.07::real) ^ 163"
      by (rule power_step [where j = 1 and b = 1, OF s81]) simp_all
    have s327: "1.890451054090 * 2 ^ 31 \<le> (1.07::real) ^ 327"
      by (rule power_step [where j = 1 and b = 1, OF s163]) simp_all
    have s655: "1.911985775531 * 2 ^ 63 \<le> (1.07::real) ^ 655"
      by (rule power_step [where j = 1 and b = 1, OF s327]) simp_all
    have s1311: "1.955793939120 * 2 ^ 127 \<le> (1.07::real) ^ 1311"
      by (rule power_step [where j = 1 and b = 1, OF s655]) simp_all
    have s2622: "1.912564966149 * 2 ^ 255 \<le> (1.07::real) ^ 2622"
      by (rule power_step [where j = 1 and b = 0, OF s1311]) simp_all
    have s5245: "1.956979041111 * 2 ^ 511 \<le> (1.07::real) ^ 5245"
      by (rule power_step [where j = 1 and b = 1, OF s2622]) simp_all
    have s10491: "1.024462663765 * 2 ^ 1024 \<le> (1.07::real) ^ 10491"
      by (rule power_step [where j = 2 and b = 1, OF s5245]) simp_all
    show ?thesis by (rule s10491)
  qed
  have "(1::real) * 2 ^ 1024 \<le> 1.024462663765 * 2 ^ 1024"
    by (intro mult_right_mono) simp_all
  also note last
  finally show ?thesis by (simp only: mult_1)
qed

lemma float_pow_overflows: "float_pow 1.07 10491 = Inl OverflowError"
proof -
  have pw: "(1.07::real) powr 10491 = 1.07 ^ 10491"
    by (rule powr_numeral) simp
  have "(2::real) ^ 1024 - 2 ^ 970 \<le> 2 ^ 1024"
    by simp
  also note power_out_of_range
  finally have "(2::real) ^ 1024 - 2 ^ 970 \<le> 1.07 powr 10491"
    unfolding pw .
  then show ?thesis
    unfolding float_pow_def by (rule if_P)
qed

lemma float_pow_supported:
  assumes "x \<le> 120"
  shows "float_pow 1.07 x = Inr (1.07 powr x)"
proof -
  have "(1.07::real) powr x \<le> 1.07 powr 120"
    using assms by (intro powr_mono) simp_all
  also have "\<dots> \<le> 2 powr 120"
    by (intro powr_mono2) simp_all
  also have "\<dots> = (2::real) ^ 120"
    by (rule powr_numeral) simp
  also have "\<dots> < 2 ^ 1024 - 2 ^ 970"
    by simp
  finally have "\<not> (2 ^ 1024 - 2 ^ 970 \<le> (1.07::real) powr x)"
    by (simp only: not_le)
  then show ?thesis
    unfolding float_pow_def by (rule if_not_P)
qed

section \<open>The generator matrix\<close>

lemma U_supported:
  assumes "x \<le> 120"
  shows "U x = Inr
     [[- (0.001 * x + 0.01 + (0.001 + 0.0004 * 1.07 powr x)), 0.001 * x, 0.01,
         0.001 + 0.0004 * 1.07 powr x],
      [0, - (0.001 + 0.0004 * 1.07 powr x), 0, 0.001 + 0.0004 * 1.07 powr x],
      [0, 0, - (0.001 + 0.0004 * 1.07 powr x), 0.001 + 0.0004 * 1.07 powr x],
      [0, 0, 0, 0]]"
  unfolding U_def Let_def float_pow_supported [OF assms] by simp

text \<open>
  C8, as stated for every age, fails: at age \<open>10491\<close> the power \<open>c**x\<close> is out of
  the range of a double, \<open>U\<close> raises OverflowError and there is no matrix whose rows
  could sum to zero.
\<close>

theorem U_overflow_counterexample: "U 10491 = Inl OverflowError"
  unfolding U_def Let_def float_pow_overflows by simp

text \<open>
  C8, amended. At every age of the supported domain, \<open>0 \<le> x \<le> 120\<close>, \<open>U(x)\<close>
  returns a matrix; each of its rows sums to zero, exactly in real arithmetic and so
  within \<open>1e-10\<close>: the diagonal entry of a row is the negated sum of the other entries
  of the row, and the last row, of the absorbing state, is zero throughout.
\<close>

theorem U_rows_sum_to_zero:
  assumes "0 \<le> x" and "x \<le> 120"
  shows "\<exists>M. U x = Inr M
     \<and> map sum_list M = [0, 0, 0, 0]
     \<and> list_all (\<lambda>row. \<bar>sum_list row\<bar> \<le> 1 / 10 ^ 10) M
     \<and> M ! 0 ! 0 = - (M ! 0 ! 1 + M ! 0 ! 2 + M ! 0 ! 3)
     \<and> M ! 1 ! 1 = - (M ! 1 ! 0 + M ! 1 ! 2 + M ! 1 ! 3)
     \<and> M ! 2 ! 2 = - (M ! 2 ! 0 + M ! 2 ! 1 + M ! 2 ! 3)
     \<and> M ! 3 ! 3 = - (M ! 3 ! 0 + M ! 3 ! 1 + M ! 3 ! 2)
     \<and> M ! 3 = [0, 0, 0, 0]"
  unfolding U_supported [OF assms(2)] by simp

theorem U_rows_sum_to_zero_witness:
  "(0::real) \<le> 25 \<and> (25::real) \<le> 120
   \<and> (\<exists>M. U 25 = Inr M
     \<and> map sum_list M = [0, 0, 0, 0]
     \<and> list_all (\<lambda>row. \<bar>sum_list row\<bar> \<le> 1 / 10 ^ 10) M
     \<and> M ! 0 ! 0 = - (M ! 0 ! 1 + M ! 0 ! 2 + M ! 0 ! 3)
     \<and> M ! 1 ! 1 = - (M ! 1 ! 0 + M ! 1 ! 2 + M ! 1 ! 3)
     \<and> M ! 2 ! 2 = - (M ! 2 ! 0 + M ! 2 ! 1 + M ! 2 ! 3)
     \<and> M ! 3 ! 3 = - (M ! 3 ! 0 + M ! 3 ! 1 + M ! 3 ! 2)
     \<and> M ! 3 = [0, 0, 0, 0])"
  using U_rows_sum_to_zero [of 25] by simp

section \<open>The transition matrix\<close>

lemma ncols_matmul: "M \<noteq> [] \<Longrightarrow> ncols (matmul M N) = ncols N"
  by (cases M) (simp_all add: matmul_def ncols_def)

lemma ncols_eye: "0 < d \<Longrightarrow> ncols (eye d) = d"
proof -
  assume "0 < d"
  then have "[0..<d] = 0 # [Suc 0..<d]" by (rule upt_conv_Cons)
  then show ?thesis using \<open>0 < d\<close> by (simp add: eye_def ncols_def)
qed

lemma ncols_mat_pow: "M \<noteq> [] \<Longrightarrow> ncols (mat_pow M k) = length M"
  by (induction k) (simp_all add: ncols_matmul ncols_eye)

lemma sum_list_zeros:
  "set rs \<subseteq> {0} \<Longrightarrow> sum_list (map2 (*) rs cs) = (0::real)"
  by (induction rs cs rule: list_induct2') simp_all

lemma sum_list_zero_row:
  "sum_list (map2 (*) [0, 0, 0, 0::real] cs) = 0"
  by (rule sum_list_zeros) simp

lemma matmul_row: "i < length M \<Longrightarrow>
  matmul M N ! i = map (\<lambda>j. sum_list (map2 (*) (M ! i) (map (\<lambda>row. row ! j) N))) [0..<ncols N]"
  by (simp add: matmul_def)

lemma upt_4: "[0..<4] = [0, 1, 2, 3]"
  by (simp add: upt_rec)

lemma eye4: "eye 4 = [[1,0,0,0],[0,1,0,0],[0,0,1,0],[0,0,0,1]]"
  by (simp add: eye_def upt_rec)

lemma mat_pow_last_row:
  assumes "length M = 4" and "M ! 3 = [0, 0, 0, 0]"
  shows "mat_pow M (Suc k) ! 3 = [0, 0, 0, 0]"
proof -
  have ne: "M \<noteq> []" using assms(1) by auto
  have "ncols (mat_pow M k) = 4"
    using ncols_mat_pow [OF ne, of k] by (simp add: assms(1))
  then show ?thesis
    by (simp add: matmul_row assms sum_list_zero_row upt_4)
qed

lemma last_row_series:
  assumes "length M = 4" and "M ! 3 = [0, 0, 0, 0]" and j: "j < 4"
  shows "(\<Sum>k. mat_pow M k ! 3 ! j / fact k) = eye 4 ! 3 ! j"
proof -
  have "(\<Sum>k. mat_pow M k ! 3 ! j / fact k) = (\<Sum>k\<in>{0}. mat_pow M k ! 3 ! j / fact k)"
  proof (rule suminf_finite)
    fix k :: nat assume "k \<notin> {0}"
    then obtain m where "k = Suc m" by (cases k) auto
    then show "mat_pow M k ! 3 ! j / fact k = 0"
      using mat_pow_last_row [OF assms(1,2), of m] j
      by (auto simp: less_Suc_eq numeral_eq_Suc)
  qed simp
  then show ?thesis by (simp add: assms(1))
qed

lemma expm_last_row:
  assumes "length M = 4" and "M ! 3 = [0, 0, 0, 0]"
  shows "expm M ! 3 = [0, 0, 0, 1]"
proof -
  have "expm M ! 3 = map (\<lambda>j. \<Sum>k. mat_pow M k ! 3 ! j / fact k) [0, 1, 2, 3]"
    unfolding expm_def assms(1) upt_4 by simp
  also have "\<dots> = [0, 0, 0, 1]"
    using last_row_series [OF assms, of 0] last_row_series [OF assms, of 1]
      last_row_series [OF assms, of 2] last_row_series [OF assms, of 3]
    by (simp add: eye4)
  finally show ?thesis .
qed

text \<open>
  C7, as stated for every age, fails: at age \<open>10491\<close> \<open>U\<close> raises OverflowError,
  so \<open>P\<close> returns no matrix and there is no last row.
\<close>

theorem P_overflow_counterexample: "P 10491 = Inl OverflowError"
  unfolding P_def U_def Let_def float_pow_overflows by simp

text \<open>
  C7, amended. At every age of the supported domain, \<open>0 \<le> x \<le> 120\<close>, \<open>P(x)\<close>
  returns a matrix whose last row, the row of the absorbing state, is exactly
  \<open>(0, 0, 0, 1)\<close>: the last row of \<open>U(x)\<close> is zero, so the last row of every
  positive power of \<open>U(x)\<close> is zero and only the identity term of the exponential
  series contributes.
\<close>

theorem P_absorbing_row:
  assumes "0 \<le> x" and "x \<le> 120"
  shows "\<exists>M. P x = Inr M \<and> M ! 3 = [0, 0, 0, 1]"
  unfolding P_def U_supported [OF assms(2)]
  by (simp add: expm_last_row)

theorem P_absorbing_row_witness:
  "(0::real) \<le> 25 \<and> (25::real) \<le> 120 \<and> (\<exists>M. P 25 = Inr M \<and> M ! 3 = [0, 0, 0, 1])"
  using P_absorbing_row [of 25] by simp

subsection \<open>The exponential of the generator in closed form\<close>

lemma matmul_generator:
  "matmul [[a, p, q, r], [0, b, 0, r], [0, 0, b, r], [0, 0, 0, 0]]
          [[A, C, D, E], [0, B, 0, F], [0, 0, B, F], [0, 0, 0, Z]]
     = [[a * A, a * C + p * B, a * D + q * B, a * E + p * F + q * F + r * Z],
        [0, b * B, 0, b * F + r * Z],
        [0, 0, b * B, b * F + r * Z],
        [0, 0, 0, 0::real]]"
  by (simp add: matmul_def ncols_def upt_4)

lemma generator_step:
  fixes a b p q r :: real
  assumes "a + p + q + r = 0" and "b + r = 0" and "p + q \<noteq> 0"
  shows "a * (p * (B - A) / (p + q)) + p * B = p * (b * B - a * A) / (p + q)"
    and "a * (q * (B - A) / (p + q)) + q * B = q * (b * B - a * A) / (p + q)"
    and "a * (Z - B) + p * (Z - B) + q * (Z - B) + r * Z = 0 - b * B"
    and "b * (Z - B) + r * Z = 0 - b * B"
proof -
  from assms have a: "a = - (p + q + r)" and b: "b = - r" by linarith+
  show "a * (p * (B - A) / (p + q)) + p * B = p * (b * B - a * A) / (p + q)"
    using assms(3) unfolding a b by (simp add: field_simps)
  show "a * (q * (B - A) / (p + q)) + q * B = q * (b * B - a * A) / (p + q)"
    using assms(3) unfolding a b by (simp add: field_simps)
  show "a * (Z - B) + p * (Z - B) + q * (Z - B) + r * Z = 0 - b * B"
    unfolding a b by (simp add: algebra_simps)
  show "b * (Z - B) + r * Z = 0 - b * B"
    unfolding b by (simp add: algebra_simps)
qed

lemma mat_pow_generator:
  fixes a b p q r :: real
  assumes "a + p + q + r = 0" and "b + r = 0" and "p + q \<noteq> 0"
  shows "mat_pow [[a, p, q, r], [0, b, 0, r], [0, 0, b, r], [0, 0, 0, 0]] k
     = [[a ^ k, p * (b ^ k - a ^ k) / (p + q), q * (b ^ k - a ^ k) / (p + q), 0 ^ k - b ^ k],
        [0, b ^ k, 0, 0 ^ k - b ^ k],
        [0, 0, b ^ k, 0 ^ k - b ^ k],
        [0, 0, 0, 0 ^ k]]"
proof (induction k)
  case 0
  show ?case by (simp add: eye_def)
next
  case (Suc k)
  show ?case
    unfolding mat_pow.simps Suc.IH matmul_generator
    using generator_step(1) [OF assms, of "b ^ k" "a ^ k"]
      generator_step(2) [OF assms, of "b ^ k" "a ^ k"]
      generator_step(3) [OF assms, of "0 ^ k" "b ^ k"]
      generator_step(4) [OF assms, of "0 ^ k" "b ^ k"]
    by simp
qed


lemma exp_series: "(\<lambda>k. a ^ k / fact k) sums exp (a::real)"
  using exp_converges [of a] by (simp add: divide_inverse mult.commute)

lemma zero_series: "(\<lambda>k. 0 ^ k / fact k) sums (1::real)"
  using exp_series [of 0] by simp

lemma diag_series: "(\<Sum>k. a ^ k / fact k) = exp (a::real)"
  using exp_series by (rule sums_unique [symmetric])

lemma unit_series: "(\<Sum>k. 0 ^ k / fact k) = (1::real)"
  using zero_series by (rule sums_unique [symmetric])

lemma absorb_series: "(\<Sum>k. (0 ^ k - b ^ k) / fact k) = 1 - exp (b::real)"
proof -
  have "(\<lambda>k. 0 ^ k / fact k - b ^ k / fact k) sums (1 - exp b)"
    by (intro sums_diff zero_series exp_series)
  then show ?thesis
    by (simp add: diff_divide_distrib sums_unique [symmetric])
qed

lemma transfer_series:
  "(\<Sum>k. p * (b ^ k - a ^ k) / (c * fact k)) = p * (exp b - exp a) / (c::real)"
proof -
  have "(\<lambda>k. b ^ k / fact k - a ^ k / fact k) sums (exp b - exp a)"
    by (intro sums_diff exp_series)
  then have "(\<lambda>k. p / c * (b ^ k / fact k - a ^ k / fact k)) sums (p / c * (exp b - exp a))"
    by (rule sums_mult)
  then have "(\<lambda>k. p * (b ^ k - a ^ k) / (c * fact k)) sums (p * (exp b - exp a) / c)"
    by (simp add: diff_divide_distrib algebra_simps)
  then show ?thesis by (rule sums_unique [symmetric])
qed

lemma expm_generator:
  fixes a b p q r :: real
  assumes "a + p + q + r = 0" and "b + r = 0" and "p + q \<noteq> 0"
  shows "expm [[a, p, q, r], [0, b, 0, r], [0, 0, b, r], [0, 0, 0, 0]]
     = [[exp a, p * (exp b - exp a) / (p + q), q * (exp b - exp a) / (p + q), 1 - exp b],
        [0, exp b, 0, 1 - exp b],
        [0, 0, exp b, 1 - exp b],
        [0, 0, 0, 1]]"
  unfolding expm_def mat_pow_generator [OF assms]
  by (simp add: upt_4 diag_series unit_series absorb_series transfer_series)

lemma P_closed_form:
  fixes x :: real
  defines "p \<equiv> 0.001 * x" and "q \<equiv> 0.01" and "r \<equiv> 0.001 + 0.0004 * 1.07 powr x"
  assumes "x \<noteq> - 10" and "x \<le> 120"
  shows "P x = Inr
     [[exp (- (p + q + r)), p * (exp (- r) - exp (- (p + q + r))) / (p + q),
         q * (exp (- r) - exp (- (p + q + r))) / (p + q), 1 - exp (- r)],
      [0, exp (- r), 0, 1 - exp (- r)],
      [0, 0, exp (- r), 1 - exp (- r)],
      [0, 0, 0, 1]]"
proof -
  have U: "U x = Inr [[- (p + q + r), p, q, r], [0, - r, 0, r], [0, 0, - r, r], [0, 0, 0, 0]]"
    unfolding U_supported [OF assms(5)] p_def q_def r_def by simp
  have ne: "p + q \<noteq> 0"
    using assms(4) by (simp add: p_def q_def)
  have "expm [[- (p + q + r), p, q, r], [0, - r, 0, r], [0, 0, - r, r], [0, 0, 0, 0]] =
     [[exp (- (p + q + r)), p * (exp (- r) - exp (- (p + q + r))) / (p + q),
         q * (exp (- r) - exp (- (p + q + r))) / (p + q), 1 - exp (- r)],
      [0, exp (- r), 0, 1 - exp (- r)],
      [0, 0, exp (- r), 1 - exp (- r)],
      [0, 0, 0, 1]]"
    by (rule expm_generator) (use ne in simp_all)
  then show ?thesis
    unfolding P_def U by simp
qed

text \<open>
  C2. For every age \<open>0 \<le> x \<le> 120\<close> the call \<open>P(x)\<close> returns a transition matrix
  of four rows of four entries; each row sums to one (exactly in real arithmetic, so
  within \<open>1e-10\<close>) and every entry lies in \<open>[0, 1]\<close>.
\<close>

theorem P_rows_sum_to_one:
  assumes "0 \<le> x" and "x \<le> 120"
  shows "\<exists>M. P x = Inr M
     \<and> map length M = [4, 4, 4, 4]
     \<and> map sum_list M = [1, 1, 1, 1]
     \<and> list_all (\<lambda>row. \<bar>sum_list row - 1\<bar> \<le> 1 / 10 ^ 10) M
     \<and> list_all (list_all (\<lambda>e. 0 \<le> e \<and> e \<le> 1)) M"
proof -
  define p q r :: real where "p = 0.001 * x" and "q = 0.01"
    and "r = 0.001 + 0.0004 * 1.07 powr x"
  define ea eb where "ea = exp (- (p + q + r))" and "eb = exp (- r)"
  from assms have "x \<noteq> - 10" by simp
  then have P: "P x = Inr
     [[ea, p * (eb - ea) / (p + q), q * (eb - ea) / (p + q), 1 - eb],
      [0, eb, 0, 1 - eb], [0, 0, eb, 1 - eb], [0, 0, 0, 1]]"
    unfolding ea_def eb_def p_def q_def r_def using assms(2) by (rule P_closed_form)
  have p: "0 \<le> p" and q: "0 < q" using assms by (simp_all add: p_def q_def)
  have r: "0 < r"
    unfolding r_def by (intro add_pos_nonneg mult_nonneg_nonneg powr_ge_zero) simp_all
  have ea: "0 < ea" and eb: "eb < 1" and ab: "ea < eb"
    using p q r by (simp_all add: ea_def eb_def)
  have pq: "0 < p + q" using p q by simp
  have d: "0 \<le> eb - ea" "eb - ea \<le> 1" using ea eb ab by simp_all
  have tp: "0 \<le> p * (eb - ea) / (p + q)" using p d pq by simp
  have tq: "0 \<le> q * (eb - ea) / (p + q)" using q d pq by simp
  have "p * (eb - ea) \<le> p * 1" using p d by (intro mult_left_mono) simp_all
  then have tp1: "p * (eb - ea) / (p + q) \<le> 1" using pq q by (simp add: field_simps)
  have "q * (eb - ea) \<le> q * 1" using q d by (intro mult_left_mono) simp_all
  then have tq1: "q * (eb - ea) / (p + q) \<le> 1" using pq p by (simp add: field_simps)
  have "p * (eb - ea) / (p + q) + q * (eb - ea) / (p + q) = (p + q) * (eb - ea) / (p + q)"
    by (simp only: add_divide_distrib distrib_right)
  also have "\<dots> = eb - ea"
    using pq by simp
  finally have "p * (eb - ea) / (p + q) + q * (eb - ea) / (p + q) = eb - ea" .
  then have s0: "ea + (p * (eb - ea) / (p + q) + (q * (eb - ea) / (p + q) + (1 - eb))) = 1"
    by simp
  show ?thesis
    unfolding P using s0 tp tq tp1 tq1 ea eb ab by simp
qed

theorem P_rows_sum_to_one_witness:
  "(0::real) \<le> 25 \<and> (25::real) \<le> 120
   \<and> (\<exists>M. P 25 = Inr M
     \<and> map length M = [4, 4, 4, 4]
     \<and> map sum_list M = [1, 1, 1, 1]
     \<and> list_all (\<lambda>row. \<bar>sum_list row - 1\<bar> \<le> 1 / 10 ^ 10) M
     \<and> list_all (list_all (\<lambda>e. 0 \<le> e \<and> e \<le> 1)) M)"
  using P_rows_sum_to_one [of 25] by simp

end
